theory Spec2Isabelle
  imports Complex_Main
begin

section \<open>Contiguous risk periods\<close>

text \<open>
  Every risk check of the package first turns a series into a boolean mask, takes the
  indices where the mask holds (\<^verbatim>\<open>np.where(mask)[0]\<close>) and then groups consecutive
  indices with the same inline loop:
  \<^verbatim>\<open>
  if len(risky_indices) > 0:
      risk_periods = []
      current_period = [risky_indices[0]]
      for i in range(1, len(risky_indices)):
          if risky_indices[i] == risky_indices[i-1] + 1:
              current_period.append(risky_indices[i])
          else:
              risk_periods.append(current_period)
              current_period = [risky_indices[i]]
      risk_periods.append(current_period)
  \<close>
  Indices are natural numbers, series are lists. Sample values and times are modelled
  as real numbers: comparison, maximum, minimum, absolute value and subtraction are those
  of finite floats up to rounding. The non-finite floats are modelled where the code
  relies on them (the hamstring-quadriceps ratio below).
\<close>

datatype error = IndexError | ValueError

definition np_where :: "bool list \<Rightarrow> nat list" where
  "np_where flags = filter (\<lambda>i. flags ! i) [0..<length flags]"

text \<open>
  The body of the \<^verbatim>\<open>for\<close> loop: \<open>prev\<close> is \<^verbatim>\<open>risky_indices[i-1]\<close>, the list argument
  holds \<^verbatim>\<open>risky_indices[i:]\<close>.
\<close>

fun group_loop :: "nat \<Rightarrow> nat list \<Rightarrow> nat list list \<Rightarrow> nat list \<Rightarrow> nat list list" where
  "group_loop prev [] risk_periods current_period = risk_periods @ [current_period]"
| "group_loop prev (r # rest) risk_periods current_period =
     (if r = prev + 1
      then group_loop r rest risk_periods (current_period @ [r])
      else group_loop r rest (risk_periods @ [current_period]) [r])"

definition group_periods :: "nat list \<Rightarrow> nat list list" where
  "group_periods risky_indices =
     (case risky_indices of
        [] \<Rightarrow> []
      | r0 # rest \<Rightarrow> group_loop r0 rest [] [r0])"

section \<open>Reporting a period\<close>

text \<open>
  \<^verbatim>\<open>
  for period in risk_periods:
      start_time = time[period[0]]
      end_time = time[period[-1]]
      max_valgus = np.max(knee_angle[period])
      results['risks'].append({... 'Duration': f'{end_time - start_time:.2f}s' ...})
  \<close>
  An interval holds the numbers the report entry is formatted from. Reading the time
  array past its end raises IndexError, which leaves the loop. The values are indexed
  with indices taken from the same series, so that read is always in range.
\<close>

record interval =
  start_time :: real
  end_time :: real
  duration :: real
  peak_value :: real

text \<open>\<^verbatim>\<open>np.max\<close> and \<^verbatim>\<open>np.min\<close> of a non-empty array (a period is never empty).\<close>

fun np_max :: "real list \<Rightarrow> real" where
  "np_max (v # vs) = fold max vs v"

fun np_min :: "real list \<Rightarrow> real" where
  "np_min (v # vs) = fold min vs v"

definition time_at :: "real list \<Rightarrow> nat \<Rightarrow> error + real" where
  "time_at time i = (if i < length time then Inr (time ! i) else Inl IndexError)"

definition report_period ::
  "(real list \<Rightarrow> real) \<Rightarrow> real list \<Rightarrow> real list \<Rightarrow> nat list \<Rightarrow> error + interval" where
  "report_period peak values time period =
     (case period of
        [] \<Rightarrow> Inl IndexError
      | _ # _ \<Rightarrow>
          (case time_at time (hd period) of
             Inl e \<Rightarrow> Inl e
           | Inr start_t \<Rightarrow>
               (case time_at time (last period) of
                  Inl e \<Rightarrow> Inl e
                | Inr end_t \<Rightarrow>
                    Inr \<lparr>start_time = start_t, end_time = end_t, duration = end_t - start_t,
                         peak_value = peak (map (\<lambda>i. values ! i) period)\<rparr>)))"

fun report_periods ::
  "(real list \<Rightarrow> real) \<Rightarrow> real list \<Rightarrow> real list \<Rightarrow> nat list list \<Rightarrow> error + interval list" where
  "report_periods peak values time [] = Inr []"
| "report_periods peak values time (period # rest) =
     (case report_period peak values time period of
        Inl e \<Rightarrow> Inl e
      | Inr iv \<Rightarrow>
          (case report_periods peak values time rest of
             Inl e \<Rightarrow> Inl e
           | Inr ivs \<Rightarrow> Inr (iv # ivs)))"

text \<open>
  The shape shared by the inline blocks (the specification calls it
  \<^verbatim>\<open>find_risk_intervals\<close>): mask, risky indices, periods, one report entry per period.
  The blocks differ in the threshold predicate and in the peak statistic.
\<close>

definition find_risk_intervals ::
  "(real \<Rightarrow> bool) \<Rightarrow> (real list \<Rightarrow> real) \<Rightarrow> real list \<Rightarrow> real list \<Rightarrow> error + interval list" where
  "find_risk_intervals predicate peak values time =
     report_periods peak values time (group_periods (np_where (map predicate values)))"

text \<open>
  The three kinds of rule in the source:
  \<^item> \<^verbatim>\<open>np.where(knee_angle > valgus_threshold)\<close> with \<^verbatim>\<open>np.max(knee_angle[period])\<close>;
  \<^item> \<^verbatim>\<open>np.where(knee_angle < varus_threshold)\<close> with \<^verbatim>\<open>np.min(knee_angle[period])\<close>
    (also \<^verbatim>\<open>hq_ratio < hq_threshold\<close> with \<^verbatim>\<open>hq_ratio.iloc[period].min()\<close>);
  \<^item> \<^verbatim>\<open>np.where(np.abs(trunk_lean) > lean_threshold)\<close> with
    \<^verbatim>\<open>np.max(np.abs(trunk_lean[period]))\<close>.
\<close>

definition greater_than_risks :: "real \<Rightarrow> real list \<Rightarrow> real list \<Rightarrow> error + interval list" where
  "greater_than_risks threshold = find_risk_intervals (\<lambda>v. v > threshold) np_max"

definition less_than_risks :: "real \<Rightarrow> real list \<Rightarrow> real list \<Rightarrow> error + interval list" where
  "less_than_risks threshold = find_risk_intervals (\<lambda>v. v < threshold) np_min"

definition magnitude_risks :: "real \<Rightarrow> real list \<Rightarrow> real list \<Rightarrow> error + interval list" where
  "magnitude_risks threshold =
     find_risk_intervals (\<lambda>v. \<bar>v\<bar> > threshold) (\<lambda>vs. np_max (map abs vs))"

definition knee_valgus_risks :: "real list \<Rightarrow> real list \<Rightarrow> error + interval list" where
  "knee_valgus_risks knee_angle time = greater_than_risks 10 knee_angle time"

definition knee_varus_risks :: "real list \<Rightarrow> real list \<Rightarrow> error + interval list" where
  "knee_varus_risks knee_angle time = less_than_risks (- 8) knee_angle time"

definition trunk_lean_risks :: "real list \<Rightarrow> real list \<Rightarrow> error + interval list" where
  "trunk_lean_risks trunk_lean time = magnitude_risks 15 trunk_lean time"

definition hq_imbalance_risks :: "real list \<Rightarrow> real list \<Rightarrow> error + interval list" where
  "hq_imbalance_risks hq_ratio time_array = less_than_risks (6 / 10) hq_ratio time_array"

section \<open>Kinematic criteria\<close>

text \<open>
  One criterion of \<^verbatim>\<open>check_kinematic_injury_risk\<close>, on the velocities or accelerations
  of a coordinate:
  \<^verbatim>\<open>
  peak_value = np.max(np.abs(measure_values))
  if params['condition'] == '>':
      at_risk = peak_value > params['threshold']
  else:
      at_risk = peak_value < params['threshold']
  if at_risk:
      risky_indices = np.where(np.abs(measure_values) > params['threshold'])[0]
      risky_times = time[risky_indices].tolist()
  \<close>
  The measure has the length of the time array (\<^verbatim>\<open>np.gradient\<close> has checked it), so
  the times are read in range.
\<close>

record kinematic_risk =
  measured_value :: real
  risky_times :: "real list"

definition check_criterion ::
  "string \<Rightarrow> real \<Rightarrow> real list \<Rightarrow> real list \<Rightarrow> kinematic_risk option" where
  "check_criterion condition threshold measure_values time =
     (let peak_value = np_max (map abs measure_values);
          at_risk = (if condition = ''>'' then peak_value > threshold
                     else peak_value < threshold)
      in if at_risk
         then Some \<lparr>measured_value = peak_value,
                    risky_times = map (\<lambda>i. time ! i)
                      (np_where (map (\<lambda>v. \<bar>v\<bar> > threshold) measure_values))\<rparr>
         else None)"

section \<open>The hamstring-quadriceps ratio\<close>

text \<open>
  \<^verbatim>\<open>
  quad_activation = quad_activation.replace(0, np.nan)
  hq_ratio = ham_activation / quad_activation
  hq_threshold = 0.6
  risky_indices = np.where(hq_ratio < hq_threshold)[0]
  \<close>
  Here the code relies on NaN, so a float is NaN, an infinity or a finite number.
  Division and comparison follow IEEE 754 (a zero divisor is taken as positive zero; the
  sign of zero and rounding are not modelled). Both series are row means of one frame
  and have its length.
\<close>

datatype npfloat = NaN | PInf | NInf | Fin real

fun float_div :: "npfloat \<Rightarrow> npfloat \<Rightarrow> npfloat" where
  "float_div NaN _ = NaN"
| "float_div _ NaN = NaN"
| "float_div (Fin a) (Fin b) =
     (if b \<noteq> 0 then Fin (a / b)
      else if a = 0 then NaN
      else if a > 0 then PInf else NInf)"
| "float_div (Fin a) _ = Fin 0"
| "float_div PInf (Fin b) = (if b \<ge> 0 then PInf else NInf)"
| "float_div NInf (Fin b) = (if b \<ge> 0 then NInf else PInf)"
| "float_div _ _ = NaN"

fun float_less :: "npfloat \<Rightarrow> real \<Rightarrow> bool" where
  "float_less NaN t = False"
| "float_less PInf t = False"
| "float_less NInf t = True"
| "float_less (Fin a) t = (a < t)"

definition replace_zero :: "npfloat \<Rightarrow> npfloat" where
  "replace_zero q = (if q = Fin 0 then NaN else q)"

definition hq_ratio_of :: "npfloat list \<Rightarrow> npfloat list \<Rightarrow> npfloat list" where
  "hq_ratio_of ham_activation quad_activation =
     map2 float_div ham_activation (map replace_zero quad_activation)"

definition hq_risk_periods :: "npfloat list \<Rightarrow> npfloat list \<Rightarrow> nat list list" where
  "hq_risk_periods ham_activation quad_activation =
     group_periods (np_where (map (\<lambda>r. float_less r (6 / 10))
       (hq_ratio_of ham_activation quad_activation)))"

section \<open>Overall risk level\<close>

text \<open>
  A report entry carries its duration as text (\<^verbatim>\<open>'1.25s'\<close>); both summaries read it
  back with \<^verbatim>\<open>float(risk['Duration'].replace('s', ''))\<close>. The model keeps the number
  read back. The posture results also hold error entries, which have an \<^verbatim>\<open>'Error'\<close>
  key and no duration.
\<close>

record risk_metric =
  Risk_Type :: string
  Duration :: real

datatype risk_entry = RiskDict risk_metric | ErrorDict string

record summary =
  overall_risk_level :: string
  risk_count :: nat

text \<open>\<^verbatim>\<open>summarize_injury_risks\<close> of muscle_forces_activations_risk.py.\<close>

definition summarize_injury_risks :: "risk_metric list \<Rightarrow> summary" where
  "summarize_injury_risks risk_metrics =
     (if risk_metrics = [] then \<lparr>overall_risk_level = ''Low'', risk_count = 0\<rparr>
      else
        (let total_duration = sum_list (map Duration risk_metrics);
             overall_risk =
               (if length risk_metrics > 5 \<or> total_duration > 2 then ''High''
                else if length risk_metrics > 2 \<or> total_duration > 1 then ''Moderate''
                else ''Low'')
         in \<lparr>overall_risk_level = overall_risk, risk_count = length risk_metrics\<rparr>))"

text \<open>The summary section of \<^verbatim>\<open>extract_motion_risk\<close> of posture_alignment_risk.py.\<close>

fun valid_risks :: "risk_entry list \<Rightarrow> risk_metric list" where
  "valid_risks [] = []"
| "valid_risks (RiskDict r # rest) = r # valid_risks rest"
| "valid_risks (ErrorDict e # rest) = valid_risks rest"

definition motion_risk_summary :: "risk_entry list \<Rightarrow> summary" where
  "motion_risk_summary risks =
     (let valid = valid_risks risks in
      if valid \<noteq> [] then
        (let total_duration = sum_list (map Duration valid);
             overall_risk =
               (if length valid > 5 \<or> total_duration > 2 then ''High''
                else if length valid > 2 \<or> total_duration > 1 then ''Moderate''
                else ''Low'')
         in \<lparr>overall_risk_level = overall_risk, risk_count = length valid\<rparr>)
      else \<lparr>overall_risk_level = ''Low'', risk_count = 0\<rparr>)"

text \<open>The classification as the claim words it, a function of count and total duration.\<close>

definition claimed_risk_level :: "nat \<Rightarrow> real \<Rightarrow> string" where
  "claimed_risk_level count total_duration =
     (if count > 5 \<or> total_duration > 2 then ''High''
      else if count > 2 \<or> total_duration > 1 then ''Moderate''
      else ''Low'')"

section \<open>Velocity and acceleration\<close>

text \<open>
  \<^verbatim>\<open>
  def compute_velocity_and_acceleration(angles, time, min_data_points=3):
      if len(angles) < min_data_points:
          raise ValueError(...)
      velocities = np.gradient(angles, time)
      accelerations = np.gradient(velocities, time)
      return velocities, accelerations
  \<close>
  NumPy's \<^verbatim>\<open>gradient(f, x)\<close> with a coordinate array \<open>x\<close> raises ValueError when the
  length of \<open>x\<close> differs from that of \<open>f\<close>, fails on fewer than two samples, and
  otherwise returns an array of the length of \<open>f\<close>: one-sided differences at both ends,
  the second-order formula for uneven spacing inside. With repeated coordinates NumPy
  divides by zero and yields infinities or NaN without raising; the quotients of the
  model there are not those values.
\<close>

definition gradient_at :: "real list \<Rightarrow> real list \<Rightarrow> nat \<Rightarrow> real" where
  "gradient_at f x i =
     (let n = length f in
      if i = 0 then (f ! 1 - f ! 0) / (x ! 1 - x ! 0)
      else if i = n - 1 then (f ! (n - 1) - f ! (n - 2)) / (x ! (n - 1) - x ! (n - 2))
      else
        (let dx1 = x ! i - x ! (i - 1);
             dx2 = x ! (i + 1) - x ! i;
             a = - dx2 / (dx1 * (dx1 + dx2));
             b = (dx2 - dx1) / (dx1 * dx2);
             c = dx1 / (dx2 * (dx1 + dx2))
         in a * f ! (i - 1) + b * f ! i + c * f ! (i + 1)))"

definition np_gradient :: "real list \<Rightarrow> real list \<Rightarrow> error + real list" where
  "np_gradient f x =
     (if length x \<noteq> length f then Inl ValueError
      else if length f < 2 then Inl IndexError
      else Inr (map (gradient_at f x) [0..<length f]))"

definition compute_velocity_and_acceleration ::
  "real list \<Rightarrow> real list \<Rightarrow> int \<Rightarrow> error + (real list \<times> real list)" where
  "compute_velocity_and_acceleration angles time min_data_points =
     (if int (length angles) < min_data_points then Inl ValueError
      else
        (case np_gradient angles time of
           Inl e \<Rightarrow> Inl e
         | Inr velocities \<Rightarrow>
             (case np_gradient velocities time of
                Inl e \<Rightarrow> Inl e
              | Inr accelerations \<Rightarrow> Inr (velocities, accelerations))))"

section \<open>Properties of the grouping loop\<close>

lemma group_loop_acc:
  "group_loop prev rs acc cur = acc @ group_loop prev rs [] cur"
proof (induction rs arbitrary: prev acc cur)
  case Nil
  show ?case by simp
next
  case (Cons r rest)
  show ?case
  proof (cases "r = prev + 1")
    case True
    then show ?thesis using Cons.IH [of r acc "cur @ [r]"] by simp
  next
    case False
    then show ?thesis
      using Cons.IH [of r "acc @ [cur]" "[r]"] Cons.IH [of r "[cur]" "[r]"] by simp
  qed
qed

lemma group_loop_step:
  "group_loop prev (r # rest) [] cur =
     (if r = prev + 1 then group_loop r rest [] (cur @ [r])
      else cur # group_loop r rest [] [r])"
  using group_loop_acc [of r rest "[cur]" "[r]"] by simp

lemma concat_group_loop: "concat (group_loop prev rs [] cur) = cur @ rs"
  by (induction rs arbitrary: prev cur) (simp_all only: group_loop_step, simp_all)

lemma group_loop_nonempty:
  "cur \<noteq> [] \<Longrightarrow> [] \<notin> set (group_loop prev rs [] cur)"
  by (induction rs arbitrary: prev cur) (simp_all only: group_loop_step, auto)

lemma group_loop_contiguous:
  "cur \<noteq> [] \<Longrightarrow> last cur = prev \<Longrightarrow> cur = [hd cur..<Suc prev] \<Longrightarrow>
   p \<in> set (group_loop prev rs [] cur) \<Longrightarrow> p = [hd p..<Suc (last p)]"
proof (induction rs arbitrary: prev cur)
  case Nil
  then show ?case by simp
next
  case (Cons r rest)
  show ?case
  proof (cases "r = prev + 1")
    case True
    have le: "hd cur \<le> prev"
      using Cons.prems(1,3) by (metis upt_eq_Nil_conv not_less_eq_eq)
    have "cur @ [r] = [hd cur..<Suc r]"
      using Cons.prems(3) True le by simp
    moreover have "hd (cur @ [r]) = hd cur" using Cons.prems(1) by simp
    ultimately have c: "cur @ [r] = [hd (cur @ [r])..<Suc r]" by simp
    from Cons.prems(4) True have "p \<in> set (group_loop r rest [] (cur @ [r]))"
      by (simp add: group_loop_step del: group_loop.simps)
    from Cons.IH [OF _ _ c this] show ?thesis by simp
  next
    case False
    with Cons.prems(4) have "p = cur \<or> p \<in> set (group_loop r rest [] [r])"
      by (simp add: group_loop_step del: group_loop.simps)
    then show ?thesis
    proof
      assume "p = cur"
      then show ?thesis using Cons.prems(2,3) by simp
    next
      assume "p \<in> set (group_loop r rest [] [r])"
      from Cons.IH [OF _ _ _ this, of ] show ?thesis by simp
    qed
  qed
qed

lemma group_loop_gaps:
  "sorted_wrt (<) (prev # rs) \<Longrightarrow> cur \<noteq> [] \<Longrightarrow> last cur = prev \<Longrightarrow>
   sorted_wrt (\<lambda>p q. Suc (last p) < hd q) (group_loop prev rs [] cur)"
proof (induction rs arbitrary: prev cur)
  case Nil
  then show ?case by simp
next
  case (Cons r rest)
  have srt: "sorted_wrt (<) (r # rest)" and pr: "prev < r"
    using Cons.prems(1) by simp_all
  show ?case
  proof (cases "r = prev + 1")
    case True
    then show ?thesis
      using Cons.IH [OF srt, of "cur @ [r]"] by (simp add: group_loop_step del: group_loop.simps)
  next
    case False
    have tail: "sorted_wrt (\<lambda>p q. Suc (last p) < hd q) (group_loop r rest [] [r])"
      using Cons.IH [OF srt, of "[r]"] by simp
    have "Suc (last cur) < hd q" if q: "q \<in> set (group_loop r rest [] [r])" for q
    proof -
      have "q \<noteq> []" using group_loop_nonempty [of "[r]" r rest] q by auto
      then have "hd q \<in> set q" by simp
      then have "hd q \<in> set (concat (group_loop r rest [] [r]))" using q by auto
      then have "hd q \<in> set (r # rest)" by (simp add: concat_group_loop)
      then have "r \<le> hd q" using srt by auto
      then show ?thesis using False pr Cons.prems(3) by simp
    qed
    with tail False show ?thesis by (simp add: group_loop_step del: group_loop.simps)
  qed
qed


lemma set_np_where: "set (np_where flags) = {i. i < length flags \<and> flags ! i}"
  by (auto simp: np_where_def)

lemma sorted_np_where: "sorted_wrt (<) (np_where flags)"
  unfolding np_where_def by (rule sorted_wrt_filter) (rule sorted_wrt_upt)

lemma concat_group_periods: "concat (group_periods rs) = rs"
  by (cases rs) (simp_all add: group_periods_def concat_group_loop)

lemma group_periods_nonempty: "p \<in> set (group_periods rs) \<Longrightarrow> p \<noteq> []"
proof (cases rs)
  case Nil
  assume "p \<in> set (group_periods rs)"
  with Nil show ?thesis by (simp add: group_periods_def)
next
  case (Cons r0 rest)
  assume "p \<in> set (group_periods rs)"
  with Cons group_loop_nonempty [of "[r0]" r0 rest] show ?thesis
    by (auto simp: group_periods_def)
qed

lemma group_periods_contiguous:
  assumes "p \<in> set (group_periods rs)"
  shows "p = [hd p..<Suc (last p)]"
proof (cases rs)
  case Nil
  with assms show ?thesis by (simp add: group_periods_def)
next
  case (Cons r0 rest)
  with assms have "p \<in> set (group_loop r0 rest [] [r0])"
    by (simp add: group_periods_def)
  from group_loop_contiguous [OF _ _ _ this] show ?thesis by simp
qed

lemma group_periods_gaps:
  assumes "sorted_wrt (<) rs"
  shows "sorted_wrt (\<lambda>p q. Suc (last p) < hd q) (group_periods rs)"
proof (cases rs)
  case Nil
  then show ?thesis by (simp add: group_periods_def)
next
  case (Cons r0 rest)
  with assms group_loop_gaps [of r0 rest "[r0]"] show ?thesis
    by (simp add: group_periods_def)
qed

lemma period_range:
  assumes "p \<in> set (group_periods rs)"
  shows "set p = {hd p..last p}"
proof -
  have "set p = set [hd p..<Suc (last p)]"
    using group_periods_contiguous [OF assms] by simp
  also have "\<dots> = {hd p..<Suc (last p)}" by (rule set_upt)
  also have "\<dots> = {hd p..last p}" by (rule atLeastLessThanSuc_atLeastAtMost)
  finally show ?thesis .
qed

lemma period_bounds:
  assumes "p \<in> set (group_periods rs)" and "i \<in> set p"
  shows "hd p \<le> i \<and> i \<le> last p"
  using assms period_range [OF assms(1)] by simp

lemma periods_apart:
  assumes srt: "sorted_wrt (<) rs"
    and kl: "k < l" and l: "l < length (group_periods rs)"
    and i: "i \<in> set (group_periods rs ! k)" and j: "j \<in> set (group_periods rs ! l)"
  shows "Suc i < j"
proof -
  let ?ps = "group_periods rs"
  have "Suc (last (?ps ! k)) < hd (?ps ! l)"
    using sorted_wrt_nth_less [OF group_periods_gaps [OF srt] kl l] .
  moreover have "i \<le> last (?ps ! k)"
    using period_bounds [of "?ps ! k" rs i] i kl l by simp
  moreover have "hd (?ps ! l) \<le> j"
    using period_bounds [of "?ps ! l" rs j] j l by simp
  ultimately show ?thesis by simp
qed

lemma adjacent_same_period:
  assumes srt: "sorted_wrt (<) rs" and i: "i \<in> set rs" and j: "Suc i \<in> set rs"
  shows "\<exists>p\<in>set (group_periods rs). i \<in> set p \<and> Suc i \<in> set p"
proof -
  let ?ps = "group_periods rs"
  from i have "i \<in> set (concat ?ps)" by (simp add: concat_group_periods)
  then obtain p where p: "p \<in> set ?ps" "i \<in> set p" by auto
  then obtain k where k: "k < length ?ps" "?ps ! k = p" by (auto simp: in_set_conv_nth)
  from j have "Suc i \<in> set (concat ?ps)" by (simp add: concat_group_periods)
  then obtain q where q: "q \<in> set ?ps" "Suc i \<in> set q" by auto
  then obtain l where l: "l < length ?ps" "?ps ! l = q" by (auto simp: in_set_conv_nth)
  have "\<not> k < l"
    using periods_apart [OF srt _ l(1), of k i "Suc i"] p(2) q(2) k(2) l(2) by auto
  moreover have "\<not> l < k"
    using periods_apart [OF srt _ k(1), of l "Suc i" i] p(2) q(2) k(2) l(2) by auto
  ultimately have "k = l" by simp
  with k l have "p = q" by simp
  with p q show ?thesis by auto
qed

section \<open>Properties of the report loop\<close>

lemma np_max_eq_Max: "vs \<noteq> [] \<Longrightarrow> np_max vs = Max (set vs)"
  by (cases vs) (simp_all add: Max.set_eq_fold [symmetric])

lemma np_min_eq_Min: "vs \<noteq> [] \<Longrightarrow> np_min vs = Min (set vs)"
  by (cases vs) (simp_all add: Min.set_eq_fold [symmetric])

lemma report_period_in_range:
  assumes "p \<noteq> []" and "last p < length time" and "hd p < length time"
  shows "report_period peak values time p =
     Inr \<lparr>start_time = time ! hd p, end_time = time ! last p,
          duration = time ! last p - time ! hd p,
          peak_value = peak (map (\<lambda>i. values ! i) p)\<rparr>"
  using assms by (cases p) (simp_all add: report_period_def time_at_def)

lemma report_period_out_of_range:
  assumes "p = [] \<or> \<not> last p < length time \<or> \<not> hd p < length time"
  shows "report_period peak values time p = Inl IndexError"
  using assms by (cases p) (auto simp: report_period_def time_at_def)

lemma report_periods_in_range:
  assumes "\<forall>p\<in>set ps. p \<noteq> [] \<and> last p < length time \<and> hd p < length time"
  shows "report_periods peak values time ps =
     Inr (map (\<lambda>p. \<lparr>start_time = time ! hd p, end_time = time ! last p,
                     duration = time ! last p - time ! hd p,
                     peak_value = peak (map (\<lambda>i. values ! i) p)\<rparr>) ps)"
  using assms by (induction ps) (simp_all add: report_period_in_range)

lemma report_periods_out_of_range:
  assumes "\<exists>p\<in>set ps. p = [] \<or> \<not> last p < length time \<or> \<not> hd p < length time"
  shows "report_periods peak values time ps = Inl IndexError"
  using assms
proof (induction ps)
  case Nil
  then show ?case by simp
next
  case (Cons p ps)
  show ?case
  proof (cases "p = [] \<or> \<not> last p < length time \<or> \<not> hd p < length time")
    case True
    then show ?thesis by (simp add: report_period_out_of_range)
  next
    case False
    then have ok: "p \<noteq> []" "last p < length time" "hd p < length time" by auto
    from False Cons.prems
    have "\<exists>q\<in>set ps. q = [] \<or> \<not> last q < length time \<or> \<not> hd q < length time" by auto
    from Cons.IH [OF this] show ?thesis
      by (simp add: report_period_in_range [OF ok])
  qed
qed

lemma periods_in_range_iff:
  "(\<forall>p\<in>set (group_periods (np_where flags)).
      p \<noteq> [] \<and> last p < length time \<and> hd p < length time)
   \<longleftrightarrow> \<not> (\<exists>i<length flags. flags ! i \<and> length time \<le> i)"
proof
  let ?ps = "group_periods (np_where flags)"
  assume ok: "\<forall>p\<in>set ?ps. p \<noteq> [] \<and> last p < length time \<and> hd p < length time"
  show "\<not> (\<exists>i<length flags. flags ! i \<and> length time \<le> i)"
  proof
    assume "\<exists>i<length flags. flags ! i \<and> length time \<le> i"
    then obtain i where i: "i < length flags" "flags ! i" "length time \<le> i" by blast
    then have "i \<in> set (concat ?ps)" by (simp add: concat_group_periods set_np_where)
    then obtain p where p: "p \<in> set ?ps" "i \<in> set p" by auto
    from period_bounds [OF p] have "i \<le> last p" by simp
    with ok p(1) i(3) show False by force
  qed
next
  let ?ps = "group_periods (np_where flags)"
  assume none: "\<not> (\<exists>i<length flags. flags ! i \<and> length time \<le> i)"
  show "\<forall>p\<in>set ?ps. p \<noteq> [] \<and> last p < length time \<and> hd p < length time"
  proof
    fix p assume p: "p \<in> set ?ps"
    have ne: "p \<noteq> []" using group_periods_nonempty [OF p] .
    have "j < length time" if "j \<in> set p" for j
    proof -
      from that p have "j \<in> set (concat ?ps)" by auto
      then have "j < length flags \<and> flags ! j"
        by (simp add: concat_group_periods set_np_where)
      with none show ?thesis by force
    qed
    moreover have "last p \<in> set p" "hd p \<in> set p" using ne by simp_all
    ultimately show "p \<noteq> [] \<and> last p < length time \<and> hd p < length time"
      using ne by blast
  qed
qed

lemma find_risk_intervals_eq:
  "find_risk_intervals predicate peak values time =
     (if \<exists>i<length values. predicate (values ! i) \<and> length time \<le> i
      then Inl IndexError
      else Inr (map (\<lambda>p. \<lparr>start_time = time ! hd p, end_time = time ! last p,
                          duration = time ! last p - time ! hd p,
                          peak_value = peak (map (\<lambda>i. values ! i) p)\<rparr>)
                 (group_periods (np_where (map predicate values)))))"
proof (cases "\<exists>i<length values. predicate (values ! i) \<and> length time \<le> i")
  case True
  then have "\<exists>i<length (map predicate values). map predicate values ! i \<and> length time \<le> i"
    by auto
  then have "\<not> (\<forall>p\<in>set (group_periods (np_where (map predicate values))).
      p \<noteq> [] \<and> last p < length time \<and> hd p < length time)"
    using periods_in_range_iff [of "map predicate values" time] by blast
  then have "\<exists>p\<in>set (group_periods (np_where (map predicate values))).
      p = [] \<or> \<not> last p < length time \<or> \<not> hd p < length time" by blast
  from report_periods_out_of_range [OF this] True show ?thesis
    by (simp only: find_risk_intervals_def if_True)
next
  case False
  then have "\<not> (\<exists>i<length (map predicate values). map predicate values ! i \<and> length time \<le> i)"
    by auto
  then have "\<forall>p\<in>set (group_periods (np_where (map predicate values))).
      p \<noteq> [] \<and> last p < length time \<and> hd p < length time"
    using periods_in_range_iff [of "map predicate values" time] by blast
  from report_periods_in_range [OF this] False show ?thesis
    by (simp only: find_risk_intervals_def if_False)
qed

lemma find_risk_intervals_Inr:
  assumes "find_risk_intervals predicate peak values time = Inr ivs"
  shows "ivs = map (\<lambda>p. \<lparr>start_time = time ! hd p, end_time = time ! last p,
                          duration = time ! last p - time ! hd p,
                          peak_value = peak (map (\<lambda>i. values ! i) p)\<rparr>)
                 (group_periods (np_where (map predicate values)))"
    and "\<forall>p\<in>set (group_periods (np_where (map predicate values))).
           p \<noteq> [] \<and> last p < length time \<and> hd p < length time"
proof -
  from assms have none: "\<not> (\<exists>i<length values. predicate (values ! i) \<and> length time \<le> i)"
    by (auto simp: find_risk_intervals_eq split: if_splits)
  with assms show "ivs = map (\<lambda>p. \<lparr>start_time = time ! hd p, end_time = time ! last p,
                          duration = time ! last p - time ! hd p,
                          peak_value = peak (map (\<lambda>i. values ! i) p)\<rparr>)
                 (group_periods (np_where (map predicate values)))"
    by (auto simp: find_risk_intervals_eq split: if_splits)
  from none have "\<not> (\<exists>i<length (map predicate values).
      map predicate values ! i \<and> length time \<le> i)" by auto
  then show "\<forall>p\<in>set (group_periods (np_where (map predicate values))).
           p \<noteq> [] \<and> last p < length time \<and> hd p < length time"
    using periods_in_range_iff [of "map predicate values" time] by blast
qed

lemma intervals_ascending:
  assumes t: "sorted_wrt (<) time"
    and r: "find_risk_intervals predicate peak values time = Inr ivs"
  shows "sorted_wrt (\<lambda>a b. end_time a < start_time b) ivs"
proof -
  let ?ps = "group_periods (np_where (map predicate values))"
  let ?f = "\<lambda>p. \<lparr>start_time = time ! hd p, end_time = time ! last p,
                          duration = time ! last p - time ! hd p,
                          peak_value = peak (map (\<lambda>i. values ! i) p)\<rparr>"
  note iv = find_risk_intervals_Inr [OF r]
  have gaps: "sorted_wrt (\<lambda>p q. Suc (last p) < hd q) ?ps"
    by (rule group_periods_gaps) (rule sorted_np_where)
  have "sorted_wrt (\<lambda>p q. time ! last p < time ! hd q) ?ps"
  proof (rule sorted_wrt_mono_rel [OF _ gaps])
    fix p q assume "p \<in> set ?ps" "q \<in> set ?ps" "Suc (last p) < hd q"
    then have "last p < hd q" "hd q < length time" using iv(2) by auto
    then show "time ! last p < time ! hd q" using sorted_wrt_nth_less [OF t] by blast
  qed
  then have "sorted_wrt (\<lambda>a b. end_time a < start_time b) (map ?f ?ps)"
    by (simp add: sorted_wrt_map)
  with iv(1) show ?thesis by simp
qed

section \<open>Coverage of the mask\<close>

text \<open>
  Claim C1. For every boolean risk mask, the union of the index ranges
  \<open>{hd p..last p}\<close> of the periods built from \<^verbatim>\<open>np.where(mask)[0]\<close> is exactly the set
  of indices where the mask holds, and no index range contains an index where the mask
  is false.
\<close>

theorem risk_periods_cover_mask:
  "(\<Union>p\<in>set (group_periods (np_where flags)). {hd p..last p})
     = {i. i < length flags \<and> flags ! i}
   \<and> (\<forall>p\<in>set (group_periods (np_where flags)). \<forall>i.
         hd p \<le> i \<and> i \<le> last p \<longrightarrow> i < length flags \<and> flags ! i)"
proof -
  let ?ps = "group_periods (np_where flags)"
  have "(\<Union>p\<in>set ?ps. {hd p..last p}) = (\<Union>p\<in>set ?ps. set p)"
    using period_range [of _ "np_where flags"] by simp
  also have "\<dots> = set (concat ?ps)" by simp
  also have "\<dots> = {i. i < length flags \<and> flags ! i}"
    by (simp only: concat_group_periods set_np_where)
  finally have cover: "(\<Union>p\<in>set ?ps. {hd p..last p}) = {i. i < length flags \<and> flags ! i}" .
  have "i < length flags \<and> flags ! i"
    if "p \<in> set ?ps" and "hd p \<le> i \<and> i \<le> last p" for p i
  proof -
    from that have "i \<in> (\<Union>p\<in>set ?ps. {hd p..last p})" by auto
    with cover show ?thesis by simp
  qed
  with cover show ?thesis by blast
qed

theorem risk_periods_cover_mask_witness:
  "(\<Union>p\<in>set (group_periods (np_where [False, True, True, False, True])). {hd p..last p})
     = {1, 2, 4}
   \<and> [1, 2] \<in> set (group_periods (np_where [False, True, True, False, True]))
   \<and> [False, True, True, False, True] ! 2"
proof -
  have "{i. i < length [False, True, True, False, True]
            \<and> [False, True, True, False, True] ! i} = {1, 2, 4}"
    by (auto simp: nth_Cons' less_Suc_eq numeral_eq_Suc split: if_splits)
  moreover have "[1, 2] \<in> set (group_periods (np_where [False, True, True, False, True]))"
    by (simp add: np_where_def group_periods_def upt_rec)
  ultimately show ?thesis
    using risk_periods_cover_mask [of "[False, True, True, False, True]"] by simp
qed

section \<open>Maximal, disjoint, ordered periods\<close>

text \<open>
  Claim C2. The periods, read one after the other, are the risky indices in ascending scan
  order; each period is a non-empty run of consecutive indices; a later period starts
  more than one index after an earlier one ends, so periods never overlap or touch;
  two adjacent risky indices lie in one period; and every period lies entirely before
  or entirely after an index where the mask is false. The grouping reads indices only:
  the time array is no argument of \<open>group_periods\<close>, and the returned intervals are the
  periods in their order, with the times read at the first and last index of each. When
  the times increase strictly, each returned interval ends before the next one starts.
\<close>

theorem risk_periods_maximal_disjoint_ordered:
  "concat (group_periods (np_where flags)) = np_where flags
   \<and> sorted_wrt (\<lambda>p q. Suc (last p) < hd q) (group_periods (np_where flags))
   \<and> (\<forall>p\<in>set (group_periods (np_where flags)). p \<noteq> [] \<and> p = [hd p..<Suc (last p)])
   \<and> (\<forall>i. Suc i < length flags \<and> flags ! i \<and> flags ! Suc i \<longrightarrow>
         (\<exists>p\<in>set (group_periods (np_where flags)). i \<in> set p \<and> Suc i \<in> set p))
   \<and> (\<forall>j. j < length flags \<and> \<not> flags ! j \<longrightarrow>
         (\<forall>p\<in>set (group_periods (np_where flags)). last p < j \<or> j < hd p))
   \<and> (find_risk_intervals predicate peak values time = Inr ivs \<longrightarrow>
         map start_time ivs =
           map (\<lambda>p. time ! hd p) (group_periods (np_where (map predicate values)))
         \<and> map end_time ivs =
           map (\<lambda>p. time ! last p) (group_periods (np_where (map predicate values))))
   \<and> (sorted_wrt (<) time \<and> find_risk_intervals predicate peak values time = Inr ivs \<longrightarrow>
         sorted_wrt (\<lambda>a b. end_time a < start_time b) ivs)"
proof -
  let ?rs = "np_where flags"
  let ?ps = "group_periods ?rs"
  have a: "concat ?ps = ?rs" by (rule concat_group_periods)
  have b: "sorted_wrt (\<lambda>p q. Suc (last p) < hd q) ?ps"
    by (rule group_periods_gaps) (rule sorted_np_where)
  have c: "\<forall>p\<in>set ?ps. p \<noteq> [] \<and> p = [hd p..<Suc (last p)]"
    using group_periods_nonempty [of _ ?rs] group_periods_contiguous [of _ ?rs] by blast
  have d: "\<exists>p\<in>set ?ps. i \<in> set p \<and> Suc i \<in> set p"
    if "Suc i < length flags \<and> flags ! i \<and> flags ! Suc i" for i
  proof (rule adjacent_same_period [OF sorted_np_where])
    show "i \<in> set ?rs" using that by (simp add: set_np_where)
    show "Suc i \<in> set ?rs" using that by (simp add: set_np_where)
  qed
  have e: "last p < j \<or> j < hd p"
    if j: "j < length flags \<and> \<not> flags ! j" and p: "p \<in> set ?ps" for j p
  proof (rule ccontr)
    assume "\<not> (last p < j \<or> j < hd p)"
    then have "j \<in> {hd p..last p}" by simp
    then have "j \<in> set p" using period_range [OF p] by simp
    then have "j \<in> set (concat ?ps)" using p by auto
    then have "flags ! j" by (simp add: a set_np_where)
    with j show False by simp
  qed
  have f: "map start_time ivs =
           map (\<lambda>p. time ! hd p) (group_periods (np_where (map predicate values)))
         \<and> map end_time ivs =
           map (\<lambda>p. time ! last p) (group_periods (np_where (map predicate values)))"
    if "find_risk_intervals predicate peak values time = Inr ivs"
    using find_risk_intervals_Inr(1) [OF that] by (simp add: comp_def)
  have g: "sorted_wrt (\<lambda>a b. end_time a < start_time b) ivs"
    if "sorted_wrt (<) time \<and> find_risk_intervals predicate peak values time = Inr ivs"
    using that intervals_ascending by blast
  from a b c d e f g show ?thesis by blast
qed

theorem risk_periods_maximal_disjoint_ordered_witness:
  "group_periods (np_where [True, True, False, True]) = [[0, 1], [3]]
   \<and> (\<exists>p\<in>set (group_periods (np_where [True, True, False, True])). 0 \<in> set p \<and> Suc 0 \<in> set p)
   \<and> (last [0, 1 :: nat] < 2 \<or> 2 < hd [0, 1 :: nat])
   \<and> sorted_wrt (\<lambda>a b. end_time a < start_time b)
        [\<lparr>start_time = 0, end_time = 1, duration = 1, peak_value = 12\<rparr>,
         \<lparr>start_time = 3, end_time = 3, duration = 0, peak_value = 13\<rparr>]"
proof -
  have ev: "group_periods (np_where [True, True, False, True]) = [[0, 1], [3]]"
    by (simp add: np_where_def group_periods_def upt_rec)
  have h1: "Suc 0 < length [True, True, False, True]
      \<and> [True, True, False, True] ! 0 \<and> [True, True, False, True] ! Suc 0" by simp
  have h2: "2 < length [True, True, False, True] \<and> \<not> [True, True, False, True] ! 2" by simp
  have h3: "[0, 1] \<in> set (group_periods (np_where [True, True, False, True]))"
    by (simp add: ev)
  have h4: "sorted_wrt (<) [0, 1, 2, 3 :: real]" by simp
  have h5: "find_risk_intervals (\<lambda>v. v > 10) np_max [11, 12, 2, 13] [0, 1, 2, 3] =
     Inr [\<lparr>start_time = 0, end_time = 1, duration = 1, peak_value = 12\<rparr>,
          \<lparr>start_time = 3, end_time = 3, duration = 0, peak_value = 13\<rparr>]"
    by (simp add: find_risk_intervals_def np_where_def group_periods_def report_period_def
        time_at_def upt_rec)
  from risk_periods_maximal_disjoint_ordered [of "[True, True, False, True]" "\<lambda>v. v > 10" np_max
      "[11, 12, 2, 13]" "[0, 1, 2, 3]"
      "[\<lparr>start_time = 0, end_time = 1, duration = 1, peak_value = 12\<rparr>,
        \<lparr>start_time = 3, end_time = 3, duration = 0, peak_value = 13\<rparr>]"] h1 h2 h3 h4 h5
  have "(\<exists>p\<in>set (group_periods (np_where [True, True, False, True])). 0 \<in> set p \<and> Suc 0 \<in> set p)"
    and "last [0, 1 :: nat] < 2 \<or> 2 < hd [0, 1 :: nat]"
    and "sorted_wrt (\<lambda>a b. end_time a < start_time b)
        [\<lparr>start_time = 0, end_time = 1, duration = 1, peak_value = 12\<rparr>,
         \<lparr>start_time = 3, end_time = 3, duration = 0, peak_value = 13\<rparr>]"
    by blast+
  with ev show ?thesis by blast
qed

section \<open>Peak values\<close>

lemma find_risk_intervals_peaks:
  assumes "find_risk_intervals predicate peak values time = Inr ivs"
  shows "map peak_value ivs =
     map (\<lambda>p. peak (map (\<lambda>i. values ! i) p)) (group_periods (np_where (map predicate values)))"
  using assms by (auto simp: find_risk_intervals_eq comp_def split: if_splits)

text \<open>
  Claim C3, as the code has it. The peak reported for a period is, for a magnitude rule,
  the largest absolute value among the samples of the period (a non-negative number: the
  sign of the sample is not kept); for a greater-than rule the largest sample of the
  period; for a less-than rule the smallest sample of the period. The kinematic check
  reports the largest absolute value of the whole measure.
\<close>

theorem peak_value_of_each_interval:
  "(magnitude_risks threshold values time = Inr ivs \<longrightarrow>
      map peak_value ivs =
        map (\<lambda>p. Max ((\<lambda>i. \<bar>values ! i\<bar>) ` set p))
          (group_periods (np_where (map (\<lambda>v. \<bar>v\<bar> > threshold) values))))
   \<and> (greater_than_risks threshold values time = Inr ivs \<longrightarrow>
      map peak_value ivs =
        map (\<lambda>p. Max ((\<lambda>i. values ! i) ` set p))
          (group_periods (np_where (map (\<lambda>v. v > threshold) values))))
   \<and> (less_than_risks threshold values time = Inr ivs \<longrightarrow>
      map peak_value ivs =
        map (\<lambda>p. Min ((\<lambda>i. values ! i) ` set p))
          (group_periods (np_where (map (\<lambda>v. v < threshold) values))))
   \<and> (measure_values \<noteq> [] \<and> check_criterion condition threshold measure_values time = Some r \<longrightarrow>
      measured_value r = Max (abs ` set measure_values))"
proof -
  have m: "map peak_value ivs =
        map (\<lambda>p. Max ((\<lambda>i. \<bar>values ! i\<bar>) ` set p))
          (group_periods (np_where (map (\<lambda>v. \<bar>v\<bar> > threshold) values)))"
    if "magnitude_risks threshold values time = Inr ivs"
  proof -
    have "map peak_value ivs = map (\<lambda>p. np_max (map abs (map (\<lambda>i. values ! i) p)))
          (group_periods (np_where (map (\<lambda>v. \<bar>v\<bar> > threshold) values)))"
      using that find_risk_intervals_peaks [of _ "\<lambda>vs. np_max (map abs vs)"]
      by (simp add: magnitude_risks_def)
    also have "\<dots> = map (\<lambda>p. Max ((\<lambda>i. \<bar>values ! i\<bar>) ` set p))
          (group_periods (np_where (map (\<lambda>v. \<bar>v\<bar> > threshold) values)))"
    proof (rule map_cong [OF refl])
      fix p assume "p \<in> set (group_periods (np_where (map (\<lambda>v. \<bar>v\<bar> > threshold) values)))"
      then have "p \<noteq> []" by (rule group_periods_nonempty)
      then show "np_max (map abs (map (\<lambda>i. values ! i) p)) = Max ((\<lambda>i. \<bar>values ! i\<bar>) ` set p)"
        by (simp add: np_max_eq_Max image_image)
    qed
    finally show ?thesis .
  qed
  have g: "map peak_value ivs =
        map (\<lambda>p. Max ((\<lambda>i. values ! i) ` set p))
          (group_periods (np_where (map (\<lambda>v. v > threshold) values)))"
    if "greater_than_risks threshold values time = Inr ivs"
  proof -
    have "map peak_value ivs = map (\<lambda>p. np_max (map (\<lambda>i. values ! i) p))
          (group_periods (np_where (map (\<lambda>v. v > threshold) values)))"
      using that find_risk_intervals_peaks [of _ np_max]
      by (simp add: greater_than_risks_def)
    also have "\<dots> = map (\<lambda>p. Max ((\<lambda>i. values ! i) ` set p))
          (group_periods (np_where (map (\<lambda>v. v > threshold) values)))"
    proof (rule map_cong [OF refl])
      fix p assume "p \<in> set (group_periods (np_where (map (\<lambda>v. v > threshold) values)))"
      then have "p \<noteq> []" by (rule group_periods_nonempty)
      then show "np_max (map (\<lambda>i. values ! i) p) = Max ((\<lambda>i. values ! i) ` set p)"
        by (simp add: np_max_eq_Max)
    qed
    finally show ?thesis .
  qed
  have l: "map peak_value ivs =
        map (\<lambda>p. Min ((\<lambda>i. values ! i) ` set p))
          (group_periods (np_where (map (\<lambda>v. v < threshold) values)))"
    if "less_than_risks threshold values time = Inr ivs"
  proof -
    have "map peak_value ivs = map (\<lambda>p. np_min (map (\<lambda>i. values ! i) p))
          (group_periods (np_where (map (\<lambda>v. v < threshold) values)))"
      using that find_risk_intervals_peaks [of _ np_min]
      by (simp add: less_than_risks_def)
    also have "\<dots> = map (\<lambda>p. Min ((\<lambda>i. values ! i) ` set p))
          (group_periods (np_where (map (\<lambda>v. v < threshold) values)))"
    proof (rule map_cong [OF refl])
      fix p assume "p \<in> set (group_periods (np_where (map (\<lambda>v. v < threshold) values)))"
      then have "p \<noteq> []" by (rule group_periods_nonempty)
      then show "np_min (map (\<lambda>i. values ! i) p) = Min ((\<lambda>i. values ! i) ` set p)"
        by (simp add: np_min_eq_Min)
    qed
    finally show ?thesis .
  qed
  have k: "measured_value r = Max (abs ` set measure_values)"
    if "measure_values \<noteq> [] \<and> check_criterion condition threshold measure_values time = Some r"
    using that by (auto simp: check_criterion_def Let_def np_max_eq_Max split: if_splits)
  from m g l k show ?thesis by blast
qed

theorem peak_value_of_each_interval_witness:
  "magnitude_risks 15 [- 20, 5, 16] [0, 1, 2] =
     Inr [\<lparr>start_time = 0, end_time = 0, duration = 0, peak_value = 20\<rparr>,
          \<lparr>start_time = 2, end_time = 2, duration = 0, peak_value = 16\<rparr>]
   \<and> map (\<lambda>p. Max ((\<lambda>i. \<bar>[- 20, 5, 16 :: real] ! i\<bar>) ` set p))
        (group_periods (np_where (map (\<lambda>v. \<bar>v\<bar> > 15) [- 20, 5, 16 :: real]))) = [20, 16]"
proof -
  have ev: "magnitude_risks 15 [- 20, 5, 16] [0, 1, 2] =
     Inr [\<lparr>start_time = 0, end_time = 0, duration = 0, peak_value = 20\<rparr>,
          \<lparr>start_time = 2, end_time = 2, duration = 0, peak_value = 16\<rparr>]"
    by (simp add: magnitude_risks_def find_risk_intervals_def
        np_where_def group_periods_def report_period_def time_at_def upt_rec)
  from peak_value_of_each_interval [of 15 "[- 20, 5, 16]" "[0, 1, 2]"
      "[\<lparr>start_time = 0, end_time = 0, duration = 0, peak_value = 20\<rparr>,
        \<lparr>start_time = 2, end_time = 2, duration = 0, peak_value = 16\<rparr>]"] ev
  have "map (\<lambda>p. Max ((\<lambda>i. \<bar>[- 20, 5, 16 :: real] ! i\<bar>) ` set p))
        (group_periods (np_where (map (\<lambda>v. \<bar>v\<bar> > 15) [- 20, 5, 16 :: real]))) = [20, 16]"
    by simp
  with ev show ?thesis by simp
qed

text \<open>
  Claim C3 as stated fails for magnitude rules: for a trunk lean of -20 degrees the
  reported peak is 20, which is no sample of the series.
\<close>

theorem magnitude_peak_loses_sign:
  "trunk_lean_risks [- 20] [0] =
     Inr [\<lparr>start_time = 0, end_time = 0, duration = 0, peak_value = 20\<rparr>]
   \<and> (20 :: real) \<notin> set [- 20]"
  by (simp add: trunk_lean_risks_def magnitude_risks_def find_risk_intervals_def
      np_where_def group_periods_def report_period_def time_at_def)

section \<open>Arrays of different lengths\<close>

text \<open>
  Claim C4, as the code has it. The lengths of the series and of the time array are never
  compared. The extraction raises IndexError exactly when some sample that violates the
  threshold has an index at or beyond the end of the time array; in every other case,
  equal lengths or not, it returns one interval per period, with times read at the first
  and last index of the period.
\<close>

theorem index_error_iff_risky_index_beyond_time:
  "find_risk_intervals predicate peak values time \<noteq> Inl ValueError
   \<and> ((find_risk_intervals predicate peak values time = Inl IndexError)
        = (\<exists>i<length values. predicate (values ! i) \<and> length time \<le> i))
   \<and> ((\<exists>ivs. find_risk_intervals predicate peak values time = Inr ivs
          \<and> length ivs = length (group_periods (np_where (map predicate values))))
        = (\<not> (\<exists>i<length values. predicate (values ! i) \<and> length time \<le> i)))"
  by (auto simp: find_risk_intervals_eq)

theorem index_error_iff_risky_index_beyond_time_witness:
  "hq_imbalance_risks [1 / 2, 9 / 10, 1 / 2] [0, 1] = Inl IndexError
   \<and> (\<exists>ivs. hq_imbalance_risks [1 / 2, 9 / 10] [0] = Inr ivs)"
proof -
  have "\<exists>i<length [1 / 2, 9 / 10, 1 / 2 :: real].
          [1 / 2, 9 / 10, 1 / 2 :: real] ! i < 6 / 10 \<and> length [0, 1 :: real] \<le> i"
    by (rule exI [of _ 2]) simp
  then have a: "hq_imbalance_risks [1 / 2, 9 / 10, 1 / 2] [0, 1] = Inl IndexError"
    using index_error_iff_risky_index_beyond_time
      [of "\<lambda>v. v < 6 / 10" np_min "[1 / 2, 9 / 10, 1 / 2]" "[0, 1]"]
    unfolding hq_imbalance_risks_def less_than_risks_def by blast
  have "\<not> (\<exists>i<length [1 / 2, 9 / 10 :: real].
          [1 / 2, 9 / 10 :: real] ! i < 6 / 10 \<and> length [0 :: real] \<le> i)"
    by (auto simp: less_Suc_eq numeral_eq_Suc)
  then have b: "\<exists>ivs. hq_imbalance_risks [1 / 2, 9 / 10] [0] = Inr ivs"
    using index_error_iff_risky_index_beyond_time
      [of "\<lambda>v. v < 6 / 10" np_min "[1 / 2, 9 / 10]" "[0]"]
    unfolding hq_imbalance_risks_def less_than_risks_def by blast
  from a b show ?thesis by blast
qed

text \<open>
  Claim C4 as stated fails: one ratio sample against two time stamps yields an interval
  and no error.
\<close>

theorem mismatched_lengths_no_error:
  "length [1 / 2 :: real] \<noteq> length [0, 1 :: real]
   \<and> hq_imbalance_risks [1 / 2] [0, 1] =
       Inr [\<lparr>start_time = 0, end_time = 0, duration = 0, peak_value = 1 / 2\<rparr>]"
  by (simp add: hq_imbalance_risks_def less_than_risks_def find_risk_intervals_def
      np_where_def group_periods_def report_period_def time_at_def)

section \<open>Worked examples\<close>

text \<open>
  Claim C5. For the values 1, 2, 11, 12, 13, 2, 1 at the times 0 to 6 and the rule
  \<open>v > 10\<close> (the knee valgus rule) there is exactly one interval: start 2, end 4,
  duration 2, peak 13.
\<close>

theorem valgus_example:
  "knee_valgus_risks [1, 2, 11, 12, 13, 2, 1] [0, 1, 2, 3, 4, 5, 6] =
     Inr [\<lparr>start_time = 2, end_time = 4, duration = 2, peak_value = 13\<rparr>]"
  by (simp add: knee_valgus_risks_def greater_than_risks_def find_risk_intervals_def
      np_where_def group_periods_def report_period_def time_at_def upt_rec)

lemma isolated_index_period:
  assumes i: "i < length flags" "flags ! i"
    and before: "i = 0 \<or> \<not> flags ! (i - 1)"
    and after: "Suc i = length flags \<or> \<not> flags ! Suc i"
  shows "[i] \<in> set (group_periods (np_where flags))"
proof -
  let ?ps = "group_periods (np_where flags)"
  from i have "i \<in> set (concat ?ps)" by (simp add: concat_group_periods set_np_where)
  then obtain p where p: "p \<in> set ?ps" "i \<in> set p" by auto
  have rng: "set p = {hd p..last p}" using period_range [OF p(1)] .
  have risky: "j < length flags \<and> flags ! j" if "j \<in> set p" for j
  proof -
    from that p(1) have "j \<in> set (concat ?ps)" by auto
    then show ?thesis by (simp add: concat_group_periods set_np_where)
  qed
  from p(2) rng have bounds: "hd p \<le> i" "i \<le> last p" by simp_all
  have "hd p = i"
  proof (rule ccontr)
    assume "hd p \<noteq> i"
    with bounds have "hd p < i" by simp
    then have "i - 1 \<in> set p" "i \<noteq> 0" using bounds rng by auto
    with risky [of "i - 1"] before show False by simp
  qed
  moreover have "last p = i"
  proof (rule ccontr)
    assume "last p \<noteq> i"
    with bounds have "i < last p" by simp
    then have "Suc i \<in> set p" using bounds rng by auto
    with risky [of "Suc i"] after show False by simp
  qed
  ultimately have "p = [i]" using group_periods_contiguous [OF p(1)] by simp
  with p(1) show ?thesis by simp
qed

text \<open>
  Claim C6. For the values -20, -5, -15 at the times 0, 1, 2 and the rule \<open>v < -10\<close>
  there are exactly two intervals, (0, 0, duration 0, peak -20) and (2, 2, duration 0,
  peak -15). A series of one sample yields one interval of duration 0 when the sample
  violates the threshold and none otherwise; and in any series a violating sample whose
  neighbours do not violate the threshold is reported as an interval that starts and
  ends at its own time, with duration 0.
\<close>

theorem single_sample_runs:
  "less_than_risks (- 10) [- 20, - 5, - 15] [0, 1, 2] =
     Inr [\<lparr>start_time = 0, end_time = 0, duration = 0, peak_value = - 20\<rparr>,
          \<lparr>start_time = 2, end_time = 2, duration = 0, peak_value = - 15\<rparr>]
   \<and> find_risk_intervals predicate peak [v] [t] =
       (if predicate v
        then Inr [\<lparr>start_time = t, end_time = t, duration = 0, peak_value = peak [v]\<rparr>]
        else Inr [])
   \<and> (i < length values \<and> predicate (values ! i)
        \<and> (i = 0 \<or> \<not> predicate (values ! (i - 1)))
        \<and> (Suc i = length values \<or> \<not> predicate (values ! Suc i))
        \<and> find_risk_intervals predicate peak values time = Inr ivs
      \<longrightarrow> \<lparr>start_time = time ! i, end_time = time ! i, duration = 0,
           peak_value = peak [values ! i]\<rparr> \<in> set ivs)"
proof -
  have a: "less_than_risks (- 10) [- 20, - 5, - 15] [0, 1, 2] =
     Inr [\<lparr>start_time = 0, end_time = 0, duration = 0, peak_value = - 20\<rparr>,
          \<lparr>start_time = 2, end_time = 2, duration = 0, peak_value = - 15\<rparr>]"
    by (simp add: less_than_risks_def find_risk_intervals_def
        np_where_def group_periods_def report_period_def time_at_def upt_rec)
  have b: "find_risk_intervals predicate peak [v] [t] =
       (if predicate v
        then Inr [\<lparr>start_time = t, end_time = t, duration = 0, peak_value = peak [v]\<rparr>]
        else Inr [])"
    by (simp add: find_risk_intervals_def np_where_def group_periods_def
        report_period_def time_at_def)
  have c: "\<lparr>start_time = time ! i, end_time = time ! i, duration = 0,
           peak_value = peak [values ! i]\<rparr> \<in> set ivs"
    if h: "i < length values \<and> predicate (values ! i)
        \<and> (i = 0 \<or> \<not> predicate (values ! (i - 1)))
        \<and> (Suc i = length values \<or> \<not> predicate (values ! Suc i))
        \<and> find_risk_intervals predicate peak values time = Inr ivs"
  proof -
    have "[i] \<in> set (group_periods (np_where (map predicate values)))"
    proof (rule isolated_index_period)
      show "i < length (map predicate values)" using h by simp
      show "map predicate values ! i" using h by simp
      show "i = 0 \<or> \<not> map predicate values ! (i - 1)" using h by auto
      show "Suc i = length (map predicate values) \<or> \<not> map predicate values ! Suc i"
        using h by (cases "Suc i = length values") auto
    qed
    moreover have "ivs = map (\<lambda>p. \<lparr>start_time = time ! hd p, end_time = time ! last p,
                          duration = time ! last p - time ! hd p,
                          peak_value = peak (map (\<lambda>i. values ! i) p)\<rparr>)
                 (group_periods (np_where (map predicate values)))"
      using h by (auto simp: find_risk_intervals_eq split: if_splits)
    ultimately show ?thesis by force
  qed
  from a b c show ?thesis by blast
qed

theorem single_sample_runs_witness:
  "less_than_risks (- 10) [- 20, - 5, - 15] [0, 1, 2] =
     Inr [\<lparr>start_time = 0, end_time = 0, duration = 0, peak_value = - 20\<rparr>,
          \<lparr>start_time = 2, end_time = 2, duration = 0, peak_value = - 15\<rparr>]
   \<and> \<lparr>start_time = [0, 1, 2 :: real] ! 2, end_time = [0, 1, 2 :: real] ! 2, duration = 0,
        peak_value = np_min [[- 20, - 5, - 15 :: real] ! 2]\<rparr>
      \<in> set [\<lparr>start_time = 0, end_time = 0, duration = 0, peak_value = - 20\<rparr>,
              \<lparr>start_time = 2, end_time = 2, duration = 0, peak_value = - 15\<rparr>]"
proof -
  have ev: "find_risk_intervals (\<lambda>v. v < - 10) np_min [- 20, - 5, - 15] [0, 1, 2] =
     Inr [\<lparr>start_time = 0, end_time = 0, duration = 0, peak_value = - 20\<rparr>,
          \<lparr>start_time = 2, end_time = 2, duration = 0, peak_value = - 15\<rparr>]"
    using single_sample_runs by (simp add: less_than_risks_def)
  have h: "2 < length [- 20, - 5, - 15 :: real] \<and> [- 20, - 5, - 15 :: real] ! 2 < - 10
        \<and> (2 = (0 :: nat) \<or> \<not> [- 20, - 5, - 15 :: real] ! (2 - 1) < - 10)
        \<and> (Suc 2 = length [- 20, - 5, - 15 :: real] \<or> \<not> [- 20, - 5, - 15 :: real] ! Suc 2 < - 10)"
    by simp
  from single_sample_runs [of "\<lambda>v. v < - 10" np_min _ _ 2 "[- 20, - 5, - 15]" "[0, 1, 2]"
      "[\<lparr>start_time = 0, end_time = 0, duration = 0, peak_value = - 20\<rparr>,
        \<lparr>start_time = 2, end_time = 2, duration = 0, peak_value = - 15\<rparr>]"] ev h
  show ?thesis by (simp add: less_than_risks_def)
qed

section \<open>No violating sample\<close>

text \<open>
  Claim C7. When no sample of the series violates the threshold, and so for the empty
  series, the extraction returns the empty list of intervals and raises nothing,
  whatever the time array is.
\<close>

theorem no_violation_no_interval:
  "((\<forall>v\<in>set values. \<not> predicate v) \<longrightarrow>
      find_risk_intervals predicate peak values time = Inr [])
   \<and> find_risk_intervals predicate peak [] time = Inr []"
proof -
  have "np_where (map predicate values) = []" if "\<forall>v\<in>set values. \<not> predicate v"
    using that by (auto simp: np_where_def filter_empty_conv)
  then show ?thesis
    by (simp add: find_risk_intervals_def group_periods_def np_where_def)
qed

theorem no_violation_no_interval_witness:
  "knee_valgus_risks [1, 2, 3] [0, 1, 2] = Inr []
   \<and> trunk_lean_risks [] [] = Inr []"
  using no_violation_no_interval [of "[1, 2, 3]" "\<lambda>v. v > 10" np_max "[0, 1, 2]"]
    no_violation_no_interval [of "[]" "\<lambda>v. \<bar>v\<bar> > 15" "\<lambda>vs. np_max (map abs vs)" "[]"]
  by (simp add: knee_valgus_risks_def greater_than_risks_def trunk_lean_risks_def
      magnitude_risks_def)

section \<open>The two summaries classify alike\<close>

text \<open>
  Claim C8. The overall risk level of \<^verbatim>\<open>summarize_injury_risks\<close> and the one of the
  summary of \<^verbatim>\<open>extract_motion_risk\<close> are the same function of the number of risks and
  their total duration: High when the count exceeds 5 or the duration exceeds 2,
  otherwise Moderate when the count exceeds 2 or the duration exceeds 1, otherwise Low.
  On the same risks both summaries agree.
\<close>

theorem risk_level_same_function:
  "overall_risk_level (summarize_injury_risks risk_metrics) =
     claimed_risk_level (length risk_metrics) (sum_list (map Duration risk_metrics))
   \<and> overall_risk_level (motion_risk_summary risks) =
     claimed_risk_level (length (valid_risks risks)) (sum_list (map Duration (valid_risks risks)))
   \<and> motion_risk_summary (map RiskDict risk_metrics) = summarize_injury_risks risk_metrics"
proof -
  have v: "valid_risks (map RiskDict rs) = rs" for rs
    by (induction rs) simp_all
  have a: "overall_risk_level (summarize_injury_risks risk_metrics) =
     claimed_risk_level (length risk_metrics) (sum_list (map Duration risk_metrics))"
    by (simp add: summarize_injury_risks_def claimed_risk_level_def Let_def)
  have b: "overall_risk_level (motion_risk_summary risks) =
     claimed_risk_level (length (valid_risks risks)) (sum_list (map Duration (valid_risks risks)))"
    by (simp add: motion_risk_summary_def claimed_risk_level_def Let_def)
  have c: "motion_risk_summary (map RiskDict risk_metrics) = summarize_injury_risks risk_metrics"
    by (simp add: motion_risk_summary_def summarize_injury_risks_def Let_def v)
  from a b c show ?thesis by blast
qed

theorem risk_level_same_function_witness:
  "overall_risk_level (summarize_injury_risks
      [\<lparr>Risk_Type = ''Hamstring Strain Risk'', Duration = 3 / 2\<rparr>]) = ''Moderate''
   \<and> overall_risk_level (motion_risk_summary
      [ErrorDict ''Trunk Lean Analysis Error'',
       RiskDict \<lparr>Risk_Type = ''Right Knee Valgus'', Duration = 3 / 2\<rparr>]) = ''Moderate''"
  using risk_level_same_function
      [of "[\<lparr>Risk_Type = ''Hamstring Strain Risk'', Duration = 3 / 2\<rparr>]"
          "[ErrorDict ''Trunk Lean Analysis Error'',
            RiskDict \<lparr>Risk_Type = ''Right Knee Valgus'', Duration = 3 / 2\<rparr>]"]
  by (simp add: claimed_risk_level_def)

section \<open>Errors of the derivative computation\<close>

text \<open>
  Claim C9, as the code has it. With the default \<^verbatim>\<open>min_data_points\<close> of 3,
  \<^verbatim>\<open>compute_velocity_and_acceleration\<close> raises ValueError exactly when the angles have
  fewer than 3 points or the time array has another length than the angles (the error
  then comes from \<^verbatim>\<open>np.gradient\<close>). For angles of at least 3 points with a time array
  of the same length it returns velocities and accelerations of that length.
\<close>

theorem velocity_acceleration_errors:
  "((compute_velocity_and_acceleration angles time 3 = Inl ValueError)
      = (length angles < 3 \<or> length time \<noteq> length angles))
   \<and> (3 \<le> length angles \<and> length time = length angles \<longrightarrow>
        (\<exists>velocities accelerations.
           compute_velocity_and_acceleration angles time 3 = Inr (velocities, accelerations)
           \<and> length velocities = length angles \<and> length accelerations = length angles))"
proof (cases "length angles < 3")
  case True
  then show ?thesis by (simp add: compute_velocity_and_acceleration_def)
next
  case long: False
  show ?thesis
  proof (cases "length time = length angles")
    case False
    with long show ?thesis
      by (simp add: compute_velocity_and_acceleration_def np_gradient_def)
  next
    case True
    with long show ?thesis
      by (simp add: compute_velocity_and_acceleration_def np_gradient_def)
  qed
qed

theorem velocity_acceleration_errors_witness:
  "compute_velocity_and_acceleration [0, 1] [0, 1] 3 = Inl ValueError
   \<and> (\<exists>velocities accelerations.
        compute_velocity_and_acceleration [0, 1, 4] [0, 1, 2] 3 = Inr (velocities, accelerations)
        \<and> length velocities = 3 \<and> length accelerations = 3)"
  using velocity_acceleration_errors [of "[0, 1]" "[0, 1]"]
    velocity_acceleration_errors [of "[0, 1, 4]" "[0, 1, 2]"]
  by (simp add: numeral_3_eq_3)

text \<open>
  Claim C9 as stated fails: three angles with two time stamps raise ValueError.
\<close>

theorem gradient_rejects_time_of_other_length:
  "\<not> length [0, 1, 2 :: real] < 3
   \<and> compute_velocity_and_acceleration [0, 1, 2] [0, 1] 3 = Inl ValueError"
  by (simp add: compute_velocity_and_acceleration_def np_gradient_def)

section \<open>Zero quadriceps activation\<close>

lemma float_div_NaN: "float_div a NaN = NaN"
  by (cases a) simp_all

text \<open>
  Claim C10. In the hamstring-quadriceps check every zero of the mean quadriceps
  activation is replaced by NaN before the division, so no divisor is zero; the ratio at
  such a sample is NaN; and the index of such a sample lies in the index range of no
  risk period.
\<close>

theorem zero_quadriceps_never_risky:
  "Fin 0 \<notin> set (map replace_zero quad_activation)
   \<and> (\<forall>i. i < length ham_activation \<and> i < length quad_activation
          \<and> quad_activation ! i = Fin 0 \<longrightarrow>
        hq_ratio_of ham_activation quad_activation ! i = NaN)
   \<and> (\<forall>i. i < length quad_activation \<and> quad_activation ! i = Fin 0 \<longrightarrow>
        (\<forall>p\<in>set (hq_risk_periods ham_activation quad_activation). i \<notin> {hd p..last p}))"
proof -
  let ?ratio = "hq_ratio_of ham_activation quad_activation"
  let ?flags = "map (\<lambda>r. float_less r (6 / 10)) ?ratio"
  have a: "Fin 0 \<notin> set (map replace_zero quad_activation)"
    by (auto simp: replace_zero_def)
  have b: "?ratio ! i = NaN"
    if "i < length ham_activation \<and> i < length quad_activation \<and> quad_activation ! i = Fin 0"
    for i
    using that by (simp add: hq_ratio_of_def replace_zero_def float_div_NaN)
  have c: "i \<notin> {hd p..last p}"
    if i: "i < length quad_activation \<and> quad_activation ! i = Fin 0"
      and p: "p \<in> set (hq_risk_periods ham_activation quad_activation)" for i p
  proof
    assume "i \<in> {hd p..last p}"
    moreover have p': "p \<in> set (group_periods (np_where ?flags))"
      using p by (simp add: hq_risk_periods_def)
    ultimately have "i \<in> set p" using period_range [OF p'] by simp
    with p' have "i \<in> set (concat (group_periods (np_where ?flags)))" by auto
    then have r: "i < length ?flags" "?flags ! i"
      by (simp_all add: concat_group_periods set_np_where)
    from r(1) have "i < length ham_activation" by (simp add: hq_ratio_of_def)
    with i b have "?ratio ! i = NaN" by simp
    with r show False by simp
  qed
  from a b c show ?thesis by blast
qed

theorem zero_quadriceps_never_risky_witness:
  "hq_risk_periods [Fin (1 / 10), Fin (1 / 5), Fin (1 / 10)] [Fin 1, Fin 0, Fin 1] = [[0], [2]]
   \<and> hq_ratio_of [Fin (1 / 10), Fin (1 / 5), Fin (1 / 10)] [Fin 1, Fin 0, Fin 1] ! 1 = NaN
   \<and> (1 :: nat) \<notin> {hd [0]..last [0]}"
proof -
  have ev: "hq_risk_periods [Fin (1 / 10), Fin (1 / 5), Fin (1 / 10)] [Fin 1, Fin 0, Fin 1]
      = [[0], [2]]"
    by (simp add: hq_risk_periods_def hq_ratio_of_def replace_zero_def np_where_def
        group_periods_def upt_rec)
  have h: "1 < length [Fin (1 / 10), Fin (1 / 5), Fin (1 / 10)]
      \<and> 1 < length [Fin 1, Fin 0, Fin 1] \<and> [Fin 1, Fin 0, Fin 1] ! 1 = Fin 0" by simp
  have m: "[0] \<in> set (hq_risk_periods [Fin (1 / 10), Fin (1 / 5), Fin (1 / 10)]
      [Fin 1, Fin 0, Fin 1])"
    using ev by simp
  from zero_quadriceps_never_risky
      [of "[Fin 1, Fin 0, Fin 1]" "[Fin (1 / 10), Fin (1 / 5), Fin (1 / 10)]"] h m
  have "hq_ratio_of [Fin (1 / 10), Fin (1 / 5), Fin (1 / 10)] [Fin 1, Fin 0, Fin 1] ! 1 = NaN"
    and "(1 :: nat) \<notin> {hd [0]..last [0]}"
    by blast+
  with ev show ?thesis by blast
qed

end
